theory Spec2Isabelle
  imports Complex_Main "HOL-Library.Sublist"
begin

section \<open>Python strings\<close>

text \<open>
  A Python \<open>str\<close> is a sequence of Unicode code points, so it is modelled as a list of
  natural numbers. \<open>ascii\<close> turns an ASCII literal into such a list; the few non-ASCII
  characters of the script's messages are written by their code point.
\<close>

type_synonym pystr = "nat list"

definition ascii :: "string \<Rightarrow> pystr" where
  "ascii s = map of_char s"

text \<open>\<open>str.isspace\<close> on one code point: the code points Python treats as whitespace.\<close>

definition isspace :: "nat \<Rightarrow> bool" where
  "isspace c \<longleftrightarrow>
     (9 \<le> c \<and> c \<le> 13) \<or> (28 \<le> c \<and> c \<le> 32) \<or> c = 133 \<or> c = 160 \<or> c = 5760 \<or>
     (8192 \<le> c \<and> c \<le> 8202) \<or> c = 8232 \<or> c = 8233 \<or> c = 8239 \<or> c = 8287 \<or> c = 12288"

text \<open>\<open>s.strip()\<close>: leading and trailing whitespace removed.\<close>

definition strip :: "pystr \<Rightarrow> pystr" where
  "strip s = rev (dropWhile isspace (rev (dropWhile isspace s)))"

text \<open>\<open>sep.join(xs)\<close>.\<close>

fun join :: "pystr \<Rightarrow> pystr list \<Rightarrow> pystr" where
  "join sep [] = []"
| "join sep [x] = x"
| "join sep (x # y # ys) = x @ sep @ join sep (y # ys)"

text \<open>\<open>str(n)\<close> for a non-negative integer: its decimal digits.\<close>

fun str_nat :: "nat \<Rightarrow> pystr" where
  "str_nat n = (if n < 10 then [48 + n] else str_nat (n div 10) @ [48 + n mod 10])"

declare str_nat.simps [simp del]

section \<open>Data and external collaborators\<close>

text \<open>A LangChain \<open>Document\<close>: its text and its source metadata.\<close>

record document =
  page_content :: pystr
  metadata :: "(pystr \<times> pystr) list"

text \<open>
  An exception instance (a subclass of \<open>Exception\<close>, which is what \<open>except Exception\<close>
  catches); the string is what \<open>str(e)\<close> gives.
\<close>

datatype exn = Exception (str_exn: pystr)

datatype chat_model = ChatGoogleGenerativeAI (model: pystr) (temperature: real)

datatype embedder = GoogleGenerativeAIEmbeddings (emb_model: pystr)

datatype chroma = Chroma (embedding_function: embedder) (persist_directory: pystr)

datatype ai_message = AIMessage (content: pystr)

text \<open>Calls the script makes into the libraries, in the order it makes them.\<close>

datatype event =
    PyPDFLoader_load pystr
  | CSVLoader_load pystr pystr
  | WebBaseLoader_load pystr
  | Split_documents nat nat "document list"
  | Chroma_from_documents "document list" embedder pystr
  | Chroma_reopen embedder pystr
  | Chroma_persist
  | Retriever_invoke chroma nat pystr
  | LLM_invoke chat_model pystr

text \<open>Calls of the Streamlit display functions that carry the script's messages.\<close>

datatype st_call =
    St_error pystr
  | St_warning pystr
  | St_write pystr
  | St_markdown pystr

text \<open>
  What the libraries and services answer. The loaders, the opening of a stored index, the
  embedding service behind \<open>Chroma.from_documents\<close>, the retriever and the model may
  raise; the splitter works in memory.
\<close>

record env =
  GOOGLE_API_KEY :: "pystr option"
  pdf_load :: "pystr \<Rightarrow> exn + document list"
  csv_load :: "pystr \<Rightarrow> exn + document list"
  web_load :: "pystr \<Rightarrow> exn + document list"
  split_documents :: "nat \<Rightarrow> nat \<Rightarrow> document list \<Rightarrow> document list"
  open_index :: "pystr \<Rightarrow> exn + unit"
  embed_and_store :: "document list \<Rightarrow> exn + unit"
  retrieve :: "chroma \<Rightarrow> nat \<Rightarrow> pystr \<Rightarrow> exn + document list"
  llm_answer :: "chat_model \<Rightarrow> pystr \<Rightarrow> exn + ai_message"

text \<open>
  The state the script reads and writes: the paths that exist on disk, the log of library
  calls, the log of display calls, the two process-wide caches, and
  \<open>st.session_state.history\<close> (\<open>None\<close> while the key is not in the session state).
\<close>

record world =
  files :: "pystr set"
  calls :: "event list"
  ui :: "st_call list"
  docs_cache :: "document list option"
  db_cache :: "chroma option"
  history :: "(pystr \<times> pystr) list option"

definition call :: "event \<Rightarrow> world \<Rightarrow> world" where
  "call ev w = w\<lparr>calls := calls w @ [ev]\<rparr>"

definition st :: "st_call \<Rightarrow> world \<Rightarrow> world" where
  "st c w = w\<lparr>ui := ui w @ [c]\<rparr>"

section \<open>Configuration\<close>

definition get_llm :: chat_model where
  "get_llm = ChatGoogleGenerativeAI (ascii ''gemini-2.5-flash'') 0"

definition embeddings :: embedder where
  "embeddings = GoogleGenerativeAIEmbeddings (ascii ''text-embedding-004'')"

definition PDF_FILES :: "pystr list" where
  "PDF_FILES = [ascii ''pdf_c_3_merged.pdf'']"

definition CSV_FILES :: "pystr list" where
  "CSV_FILES = [ascii ''customs_duty_table.csv'']"

definition URLS :: "pystr list" where
  "URLS = [ascii ''https://www.india-briefing.com/doing-business-guide/india/taxation-and-accounting/customs-duty-and-import-export-taxes-in-india'',
           ascii ''https://cleartax.in/s/customs-duty-india'']"

definition DB_DIR :: pystr where
  "DB_DIR = ascii ''rag_db''"

section \<open>Loading the documents\<close>

definition pdf_not_found :: "pystr \<Rightarrow> pystr" where
  "pdf_not_found pdf = 9888 # ascii '' PDF not found: '' @ pdf"

definition csv_not_found :: "pystr \<Rightarrow> pystr" where
  "csv_not_found csv = 9888 # ascii '' CSV not found: '' @ csv"

definition url_failed :: "pystr \<Rightarrow> exn \<Rightarrow> pystr" where
  "url_failed url e = 9888 # ascii '' Failed to load URL '' @ url @ ascii '': '' @ str_exn e"

text \<open>
  The three loops of \<open>load_all_documents\<close>, each over its configured list with the
  documents gathered so far. A raise inside the PDF or the CSV loop leaves the function;
  the URL loop catches it.
\<close>

fun load_pdfs :: "env \<Rightarrow> pystr list \<Rightarrow> document list \<Rightarrow> world \<Rightarrow> (exn + document list) \<times> world" where
  "load_pdfs E [] docs w = (Inr docs, w)"
| "load_pdfs E (pdf # rest) docs w =
     (if pdf \<in> files w then
        (case pdf_load E pdf of
           Inl e \<Rightarrow> (Inl e, call (PyPDFLoader_load pdf) w)
         | Inr ds \<Rightarrow> load_pdfs E rest (docs @ ds) (call (PyPDFLoader_load pdf) w))
      else load_pdfs E rest docs (st (St_warning (pdf_not_found pdf)) w))"

fun load_csvs :: "env \<Rightarrow> pystr list \<Rightarrow> document list \<Rightarrow> world \<Rightarrow> (exn + document list) \<times> world" where
  "load_csvs E [] docs w = (Inr docs, w)"
| "load_csvs E (csv # rest) docs w =
     (if csv \<in> files w then
        (case csv_load E csv of
           Inl e \<Rightarrow> (Inl e, call (CSVLoader_load csv (ascii ''utf-8'')) w)
         | Inr ds \<Rightarrow> load_csvs E rest (docs @ ds) (call (CSVLoader_load csv (ascii ''utf-8'')) w))
      else load_csvs E rest docs (st (St_warning (csv_not_found csv)) w))"

fun load_urls :: "env \<Rightarrow> pystr list \<Rightarrow> document list \<Rightarrow> world \<Rightarrow> document list \<times> world" where
  "load_urls E [] docs w = (docs, w)"
| "load_urls E (url # rest) docs w =
     (case web_load E url of
        Inl e \<Rightarrow> load_urls E rest docs (st (St_warning (url_failed url e)) (call (WebBaseLoader_load url) w))
      | Inr ds \<Rightarrow> load_urls E rest (docs @ ds) (call (WebBaseLoader_load url) w))"

definition load_all_documents :: "env \<Rightarrow> world \<Rightarrow> (exn + document list) \<times> world" where
  "load_all_documents E w =
     (case load_pdfs E PDF_FILES [] w of
        (Inl e, w1) \<Rightarrow> (Inl e, w1)
      | (Inr docs1, w1) \<Rightarrow>
          (case load_csvs E CSV_FILES docs1 w1 of
             (Inl e, w2) \<Rightarrow> (Inl e, w2)
           | (Inr docs2, w2) \<Rightarrow>
               (case load_urls E URLS docs2 w2 of (docs3, w3) \<Rightarrow> (Inr docs3, w3))))"

text \<open>
  \<open>@st.cache_data\<close>: the body runs when nothing is cached and its result is kept; a
  raise caches nothing. Then the script reports the number of documents.
\<close>

definition load_all_documents_cached :: "env \<Rightarrow> world \<Rightarrow> (exn + document list) \<times> world" where
  "load_all_documents_cached E w =
     (case docs_cache w of
        Some docs \<Rightarrow> (Inr docs, w)
      | None \<Rightarrow>
          (case load_all_documents E w of
             (Inl e, w1) \<Rightarrow> (Inl e, w1)
           | (Inr docs, w1) \<Rightarrow> (Inr docs, w1\<lparr>docs_cache := Some docs\<rparr>)))"

definition loaded_message :: "nat \<Rightarrow> pystr" where
  "loaded_message n = 9989 # ascii '' Loaded '' @ str_nat n @ ascii '' documents.''"

definition load_and_report :: "env \<Rightarrow> world \<Rightarrow> (exn + document list) \<times> world" where
  "load_and_report E w =
     (case load_all_documents_cached E w of
        (Inl e, w1) \<Rightarrow> (Inl e, w1)
      | (Inr all_docs, w1) \<Rightarrow> (Inr all_docs, st (St_write (loaded_message (length all_docs))) w1))"

section \<open>Building or reopening the vector store\<close>

text \<open>
  \<open>get_vectorstore\<close>. Opening the stored index may raise. \<open>Chroma.from_documents\<close>
  first sets up its client on \<open>persist_directory\<close>, which creates the directory, and then
  embeds and stores the chunks: the directory exists from the build call on, also when the
  embedding raises.
\<close>

definition get_vectorstore :: "env \<Rightarrow> document list \<Rightarrow> world \<Rightarrow> (exn + chroma) \<times> world" where
  "get_vectorstore E all_docs w =
     (if DB_DIR \<in> files w then
        (let w1 = call (Chroma_reopen embeddings DB_DIR) w
         in case open_index E DB_DIR of
              Inl e \<Rightarrow> (Inl e, w1)
            | Inr u \<Rightarrow> (Inr (Chroma embeddings DB_DIR), w1))
      else
        (let chunks = split_documents E 1000 200 all_docs;
             w1 = call (Split_documents 1000 200 all_docs) w;
             w2 = call (Chroma_from_documents chunks embeddings DB_DIR)
                    (w1\<lparr>files := insert DB_DIR (files w1)\<rparr>)
         in case embed_and_store E chunks of
              Inl e \<Rightarrow> (Inl e, w2)
            | Inr u \<Rightarrow> (Inr (Chroma embeddings DB_DIR), call Chroma_persist w2)))"

text \<open>\<open>@st.cache_resource\<close>: as above, for the store.\<close>

definition get_vectorstore_cached :: "env \<Rightarrow> document list \<Rightarrow> world \<Rightarrow> (exn + chroma) \<times> world" where
  "get_vectorstore_cached E all_docs w =
     (case db_cache w of
        Some db \<Rightarrow> (Inr db, w)
      | None \<Rightarrow>
          (case get_vectorstore E all_docs w of
             (Inl e, w1) \<Rightarrow> (Inl e, w1)
           | (Inr db, w1) \<Rightarrow> (Inr db, w1\<lparr>db_cache := Some db\<rparr>)))"

section \<open>Retrieval and answer\<close>

definition no_relevant_documents :: pystr where
  "no_relevant_documents = 10060 # ascii '' No relevant documents found.''"

definition prompt_of :: "pystr \<Rightarrow> pystr \<Rightarrow> pystr" where
  "prompt_of context query =
     ascii ''Use ONLY the context to answer. Also provide sample calculations. Generate output in table.''
     @ [10, 10] @ ascii ''Context:'' @ [10] @ context @ [10, 10] @ ascii ''Question: '' @ query"

definition ask_llm :: "env \<Rightarrow> chroma \<Rightarrow> pystr \<Rightarrow> world \<Rightarrow> (exn + pystr) \<times> world" where
  "ask_llm E db query w =
     (let w1 = call (Retriever_invoke db 5 query) w
      in case retrieve E db 5 query of
           Inl e \<Rightarrow> (Inl e, w1)
         | Inr results \<Rightarrow>
             (if results = [] then (Inr no_relevant_documents, w1)
              else
                (let context = join [10, 10] (map page_content results);
                     llm = get_llm;
                     prompt = prompt_of context query;
                     w2 = call (LLM_invoke llm prompt) w1
                 in case llm_answer E llm prompt of
                      Inl e \<Rightarrow> (Inl e, w2)
                    | Inr answer \<Rightarrow> (Inr (content answer), w2))))"

section \<open>The page\<close>

text \<open>One run of the script is driven by what the user did: the text in the input box and
  whether the Ask button was pressed.\<close>

record interaction =
  ask_clicked :: bool
  user_query :: pystr

definition api_key_missing :: pystr where
  "api_key_missing = 10060 # ascii '' GOOGLE_API_KEY not found in my.env''"

definition check_api_key :: "env \<Rightarrow> world \<Rightarrow> world" where
  "check_api_key E w =
     (case GOOGLE_API_KEY E of
        None \<Rightarrow> st (St_error api_key_missing) w
      | Some k \<Rightarrow> (if k = [] then st (St_error api_key_missing) w else w))"

definition init_history :: "world \<Rightarrow> world" where
  "init_history w = (case history w of None \<Rightarrow> w\<lparr>history := Some []\<rparr> | Some h \<Rightarrow> w)"

definition please_enter :: pystr where
  "please_enter = 9888 # ascii '' Please enter a question.''"

definition answer_heading :: pystr where
  "answer_heading = ascii ''## '' @ [129534] @ ascii '' Answer''"

definition answer_div :: "pystr \<Rightarrow> pystr" where
  "answer_div answer =
     ascii ''<div style='' @ [39] @ ascii ''padding:15px; background:#F7F9F9; border-radius:10px''
     @ [39] @ ascii ''>'' @ answer @ ascii ''</div>''"

text \<open>The handler of the Ask button.\<close>

definition ask_button :: "env \<Rightarrow> chroma \<Rightarrow> interaction \<Rightarrow> world \<Rightarrow> exn option \<times> world" where
  "ask_button E db i w =
     (if ask_clicked i then
        (if strip (user_query i) = [] then (None, st (St_warning please_enter) w)
         else
           (case ask_llm E db (user_query i) w of
              (Inl e, w1) \<Rightarrow> (Some e, w1)
            | (Inr answer, w1) \<Rightarrow>
                (None, st (St_markdown (answer_div answer)) (st (St_markdown answer_heading) w1))))
      else (None, w))"

text \<open>The loop that displays the stored pairs, oldest first.\<close>

fun render_history :: "(pystr \<times> pystr) list \<Rightarrow> world \<Rightarrow> world" where
  "render_history [] w = w"
| "render_history ((q, a) # rest) w =
     render_history rest
       (st (St_markdown (ascii ''---''))
         (st (St_write a)
           (st (St_markdown (ascii ''### '' @ [9989] @ ascii '' Answer:''))
             (st (St_write q)
               (st (St_markdown (ascii ''### '' @ [10067] @ ascii '' Question:'')) w)))))"

text \<open>
  One run of the script, top to bottom. An exception that nothing catches ends the run
  (the result is \<open>Some e\<close>) and leaves the process alive with the state reached so far.
  The banner, the usage notes, the prompt line, the input box, the spinner and the footer
  are fixed text shown on every run; they read and write no state and are left out of the
  display log.
\<close>

definition script :: "env \<Rightarrow> interaction \<Rightarrow> world \<Rightarrow> exn option \<times> world" where
  "script E i w =
     (case load_and_report E (check_api_key E w) of
        (Inl e, w1) \<Rightarrow> (Some e, w1)
      | (Inr all_docs, w1) \<Rightarrow>
          (case get_vectorstore_cached E all_docs w1 of
             (Inl e, w2) \<Rightarrow> (Some e, w2)
           | (Inr db, w2) \<Rightarrow>
               (case ask_button E db i (init_history w2) of
                  (Some e, w3) \<Rightarrow> (Some e, w3)
                | (None, w3) \<Rightarrow>
                    (None, render_history (case history w3 of None \<Rightarrow> [] | Some h \<Rightarrow> h) w3))))"

text \<open>A session: the script runs once for each interaction, on the state the last run left.\<close>

fun run_session :: "env \<Rightarrow> interaction list \<Rightarrow> world \<Rightarrow> world" where
  "run_session E [] w = w"
| "run_session E (i # rest) w = run_session E rest (snd (script E i w))"

text \<open>The state of a process that has just started, over the files on disk.\<close>

definition fresh :: "pystr set \<Rightarrow> world" where
  "fresh fs = \<lparr>files = fs, calls = [], ui = [], docs_cache = None, db_cache = None, history = None\<rparr>"

section \<open>Vocabulary of the properties\<close>

text \<open>Kinds of library call.\<close>

fun is_llm_call :: "event \<Rightarrow> bool" where
  "is_llm_call (LLM_invoke m p) = True"
| "is_llm_call ev = False"




fun splits_or_embeds :: "event \<Rightarrow> bool" where
  "splits_or_embeds (Split_documents sz ov docs) = True"
| "splits_or_embeds (Chroma_from_documents chunks em d) = True"
| "splits_or_embeds (Retriever_invoke db k query) = True"
| "splits_or_embeds ev = False"


text \<open>
  What one configured source contributes: the documents its loader returns when the
  source is loaded, nothing when it is skipped; and the warning a URL leaves when its
  fetch fails.
\<close>

definition pdf_docs :: "env \<Rightarrow> pystr set \<Rightarrow> pystr \<Rightarrow> document list" where
  "pdf_docs E fs p = (if p \<in> fs then (case pdf_load E p of Inl e \<Rightarrow> [] | Inr ds \<Rightarrow> ds) else [])"

definition csv_docs :: "env \<Rightarrow> pystr set \<Rightarrow> pystr \<Rightarrow> document list" where
  "csv_docs E fs p = (if p \<in> fs then (case csv_load E p of Inl e \<Rightarrow> [] | Inr ds \<Rightarrow> ds) else [])"

definition url_docs :: "env \<Rightarrow> pystr \<Rightarrow> document list" where
  "url_docs E u = (case web_load E u of Inl e \<Rightarrow> [] | Inr ds \<Rightarrow> ds)"

definition url_warnings :: "env \<Rightarrow> pystr \<Rightarrow> st_call list" where
  "url_warnings E u = (case web_load E u of Inl e \<Rightarrow> [St_warning (url_failed u e)] | Inr ds \<Rightarrow> [])"

definition loaded_documents :: "env \<Rightarrow> pystr set \<Rightarrow> document list" where
  "loaded_documents E fs =
     concat (map (pdf_docs E fs) PDF_FILES) @ concat (map (csv_docs E fs) CSV_FILES)
     @ concat (map (url_docs E) URLS)"

definition load_warnings :: "env \<Rightarrow> pystr set \<Rightarrow> st_call list" where
  "load_warnings E fs =
     map (\<lambda>p. St_warning (pdf_not_found p)) (filter (\<lambda>p. p \<notin> fs) PDF_FILES)
     @ map (\<lambda>p. St_warning (csv_not_found p)) (filter (\<lambda>p. p \<notin> fs) CSV_FILES)
     @ concat (map (url_warnings E) URLS)"

definition load_calls :: "pystr set \<Rightarrow> event list" where
  "load_calls fs =
     map PyPDFLoader_load (filter (\<lambda>p. p \<in> fs) PDF_FILES)
     @ map (\<lambda>p. CSVLoader_load p (ascii ''utf-8'')) (filter (\<lambda>p. p \<in> fs) CSV_FILES)
     @ map WebBaseLoader_load URLS"

text \<open>
  A step that leaves the files and the cached store alone and whose calls to the splitter
  or the embedding service are exactly \<open>xs\<close>; used to carry properties through a session.
\<close>

definition steps :: "event list \<Rightarrow> world \<Rightarrow> world \<Rightarrow> bool" where
  "steps xs w w' \<longleftrightarrow>
     files w' = files w \<and> db_cache w' = db_cache w
     \<and> (\<exists>cs. calls w' = calls w @ cs \<and> filter splits_or_embeds cs = xs)"

subsection \<open>Sample surroundings\<close>

definition doc_a :: document where
  "doc_a = \<lparr>page_content = ascii ''Laptops (HS 8471): basic customs duty 0%'', metadata = []\<rparr>"

definition doc_b :: document where
  "doc_b = \<lparr>page_content = ascii ''8471,Laptops,0,18'', metadata = []\<rparr>"

definition doc_c :: document where
  "doc_c = \<lparr>page_content = ascii ''Customs duty is levied on imports.'', metadata = []\<rparr>"

text \<open>Both local files parse, no URL is reachable, retrieval finds two chunks (none for
  the query \<open>zzz\<close>) and the model answers.\<close>

definition demo_env :: env where
  "demo_env = \<lparr>GOOGLE_API_KEY = Some (ascii ''key''),
     pdf_load = (\<lambda>p. Inr [doc_a]),
     csv_load = (\<lambda>p. Inr [doc_b]),
     web_load = (\<lambda>u. Inl (Exception (ascii ''timed out''))),
     split_documents = (\<lambda>sz ov docs. docs),
     open_index = (\<lambda>d. Inr ()),
     embed_and_store = (\<lambda>chunks. Inr ()),
     retrieve = (\<lambda>db k q. if q = ascii ''zzz'' then Inr [] else Inr [doc_a, doc_b]),
     llm_answer = (\<lambda>m p. Inr (AIMessage (ascii ''| item | duty |'')))\<rparr>"

text \<open>As \<open>demo_env\<close>, with the second URL reachable.\<close>

definition mixed_env :: env where
  "mixed_env = demo_env\<lparr>web_load :=
      (\<lambda>u. if u = ascii ''https://cleartax.in/s/customs-duty-india'' then Inr [doc_c]
            else Inl (Exception (ascii ''timed out'')))\<rparr>"

text \<open>As \<open>demo_env\<close>, with a CSV file, respectively a PDF file, that the parser rejects.\<close>

definition corrupt_csv_env :: env where
  "corrupt_csv_env = demo_env\<lparr>csv_load := (\<lambda>p. Inl (Exception (ascii ''bad row'')))\<rparr>"


text \<open>As \<open>demo_env\<close>; it names the case where nothing at all can be loaded.\<close>

definition offline_env :: env where
  "offline_env = demo_env\<lparr>web_load := (\<lambda>u. Inl (Exception (ascii ''unreachable'')))\<rparr>"

text \<open>As \<open>offline_env\<close>, with an index client that refuses an empty list of chunks.\<close>

definition empty_index_env :: env where
  "empty_index_env = offline_env\<lparr>embed_and_store :=
      (\<lambda>chunks. if chunks = [] then Inl (Exception (ascii ''empty list'')) else Inr ())\<rparr>"

section \<open>Strings\<close>

lemma strip_empty_iff: "strip s = [] \<longleftrightarrow> (\<forall>c\<in>set s. isspace c)"
proof -
  have "(\<forall>c\<in>set (dropWhile isspace s). isspace c) \<longleftrightarrow> (\<forall>c\<in>set s. isspace c)"
  proof
    assume a: "\<forall>c\<in>set (dropWhile isspace s). isspace c"
    have "dropWhile isspace s = []"
    proof (rule ccontr)
      assume n: "dropWhile isspace s \<noteq> []"
      then have "\<not> isspace (hd (dropWhile isspace s))" by (rule hd_dropWhile)
      moreover have "hd (dropWhile isspace s) \<in> set (dropWhile isspace s)" using n by simp
      ultimately show False using a by blast
    qed
    then show "\<forall>c\<in>set s. isspace c" by (simp add: dropWhile_eq_Nil_conv)
  next
    assume "\<forall>c\<in>set s. isspace c"
    then show "\<forall>c\<in>set (dropWhile isspace s). isspace c" by (meson set_dropWhileD)
  qed
  then show ?thesis by (simp add: strip_def dropWhile_eq_Nil_conv)
qed

lemma sublist_join: "x \<in> set xs \<Longrightarrow> sublist x (join sep xs)"
proof (induction sep xs rule: join.induct)
  case (1 sep)
  then show ?case by simp
next
  case (2 sep y)
  then show ?case by simp
next
  case (3 sep y z zs)
  show ?case
  proof (cases "x = y")
    case True
    then show ?thesis by (simp add: sublist_append_rightI)
  next
    case False
    with 3 have "sublist x (join sep (z # zs))" by simp
    then show ?thesis by (simp add: sublist_append)
  qed
qed

section \<open>The answer generator\<close>

text \<open>
  Claim C3. When the top-5 retrieval for a query returns the empty list, \<open>ask_llm\<close>
  returns the fixed message \<open>no_relevant_documents\<close>; the only library call it makes is
  the retrieval itself, so the log holds no more model calls than before.
\<close>

theorem ask_llm_empty_retrieval:
  assumes "retrieve E db 5 query = Inr []"
  shows "fst (ask_llm E db query w) = Inr no_relevant_documents
       \<and> calls (snd (ask_llm E db query w)) = calls w @ [Retriever_invoke db 5 query]
       \<and> filter is_llm_call (calls (snd (ask_llm E db query w))) = filter is_llm_call (calls w)"
  using assms by (simp add: ask_llm_def call_def)

text \<open>The query \<open>zzz\<close>, for which \<open>demo_env\<close> retrieves nothing.\<close>

theorem ask_llm_empty_retrieval_witness:
  "retrieve demo_env (Chroma embeddings DB_DIR) 5 (ascii ''zzz'') = Inr []
   \<and> fst (ask_llm demo_env (Chroma embeddings DB_DIR) (ascii ''zzz'') (fresh {DB_DIR})) = Inr no_relevant_documents
   \<and> calls (snd (ask_llm demo_env (Chroma embeddings DB_DIR) (ascii ''zzz'') (fresh {DB_DIR})))
       = [Retriever_invoke (Chroma embeddings DB_DIR) 5 (ascii ''zzz'')]"
  using ask_llm_empty_retrieval [of demo_env "Chroma embeddings DB_DIR" "ascii ''zzz''" "fresh {DB_DIR}"]
  by (simp add: demo_env_def fresh_def)

lemma sublist_prompt_query: "sublist query (prompt_of context query)"
proof -
  have "\<exists>ps. prompt_of context query = ps @ query"
    unfolding prompt_of_def by (metis append.assoc)
  then show ?thesis by auto
qed

lemma sublist_prompt_context: "sublist context (prompt_of context query)"
  unfolding prompt_of_def
  by (metis append.assoc sublist_appendI)

text \<open>
  Claim C2. When the retrieval for a query returns a non-empty list, \<open>ask_llm\<close> makes,
  after the retrieval, exactly one model call. The model is the one \<open>get_llm\<close>
  configures, at temperature 0. The prompt contains the query as typed and the
  \<open>page_content\<close> of the retrieved chunks joined by two newlines (hence each chunk's text).
  When the model answers, \<open>ask_llm\<close> returns the content of the answer unchanged.
\<close>

theorem ask_llm_prompt:
  assumes "retrieve E db 5 query = Inr results" and "results \<noteq> []"
  shows "calls (snd (ask_llm E db query w))
           = calls w @ [Retriever_invoke db 5 query,
                        LLM_invoke get_llm (prompt_of (join [10, 10] (map page_content results)) query)]
       \<and> length (filter is_llm_call (calls (snd (ask_llm E db query w))))
           = Suc (length (filter is_llm_call (calls w)))
       \<and> temperature get_llm = 0
       \<and> sublist query (prompt_of (join [10, 10] (map page_content results)) query)
       \<and> sublist (join [10, 10] (map page_content results))
           (prompt_of (join [10, 10] (map page_content results)) query)
       \<and> (\<forall>d\<in>set results. sublist (page_content d)
             (prompt_of (join [10, 10] (map page_content results)) query))
       \<and> (\<forall>answer. llm_answer E get_llm (prompt_of (join [10, 10] (map page_content results)) query) = Inr answer
             \<longrightarrow> fst (ask_llm E db query w) = Inr (content answer))"
proof -
  let ?ctx = "join [10, 10] (map page_content results)"
  have c: "calls (snd (ask_llm E db query w))
           = calls w @ [Retriever_invoke db 5 query, LLM_invoke get_llm (prompt_of ?ctx query)]"
    using assms by (simp add: ask_llm_def call_def Let_def split: sum.splits)
  have t: "temperature get_llm = 0" by (simp add: get_llm_def)
  have d: "\<forall>d\<in>set results. sublist (page_content d) (prompt_of ?ctx query)"
  proof
    fix d assume "d \<in> set results"
    then have "sublist (page_content d) ?ctx" by (intro sublist_join) simp
    then show "sublist (page_content d) (prompt_of ?ctx query)"
      using sublist_prompt_context sublist_order.order_trans by blast
  qed
  have r: "\<forall>answer. llm_answer E get_llm (prompt_of ?ctx query) = Inr answer
             \<longrightarrow> fst (ask_llm E db query w) = Inr (content answer)"
    using assms by (simp add: ask_llm_def Let_def)
  show ?thesis using c t d r sublist_prompt_query sublist_prompt_context by simp
qed

text \<open>A query for which \<open>demo_env\<close> retrieves two chunks.\<close>

theorem ask_llm_prompt_witness:
  "retrieve demo_env (Chroma embeddings DB_DIR) 5 (ascii ''laptops?'') = Inr [doc_a, doc_b]
   \<and> [doc_a, doc_b] \<noteq> []
   \<and> calls (snd (ask_llm demo_env (Chroma embeddings DB_DIR) (ascii ''laptops?'') (fresh {DB_DIR})))
       = [Retriever_invoke (Chroma embeddings DB_DIR) 5 (ascii ''laptops?''),
          LLM_invoke get_llm
            (prompt_of (page_content doc_a @ [10, 10] @ page_content doc_b) (ascii ''laptops?''))]
   \<and> fst (ask_llm demo_env (Chroma embeddings DB_DIR) (ascii ''laptops?'') (fresh {DB_DIR}))
       = Inr (ascii ''| item | duty |'')"
proof -
  have r: "retrieve demo_env (Chroma embeddings DB_DIR) 5 (ascii ''laptops?'') = Inr [doc_a, doc_b]"
    by (simp add: demo_env_def ascii_def)
  have n: "[doc_a, doc_b] \<noteq> []" by simp
  have a: "llm_answer demo_env get_llm
             (prompt_of (join [10, 10] (map page_content [doc_a, doc_b])) (ascii ''laptops?''))
           = Inr (AIMessage (ascii ''| item | duty |''))"
    by (simp add: demo_env_def)
  from ask_llm_prompt [OF r n, of "fresh {DB_DIR}"] r a show ?thesis
    by (simp add: fresh_def)
qed

section \<open>The document loader\<close>

lemma files_call [simp]: "files (call ev w) = files w"
  by (simp add: call_def)

lemma files_st [simp]: "files (st c w) = files w"
  by (simp add: st_def)

lemma load_urls_eq:
  "load_urls E us docs w =
     (docs @ concat (map (url_docs E) us),
      w\<lparr>calls := calls w @ map WebBaseLoader_load us,
        ui := ui w @ concat (map (url_warnings E) us)\<rparr>)"
proof (induction us arbitrary: docs w)
  case Nil
  then show ?case by simp
next
  case (Cons u us)
  show ?case
  proof (cases "web_load E u")
    case (Inl e)
    then show ?thesis
      by (simp add: Cons.IH url_docs_def url_warnings_def call_def st_def)
  next
    case (Inr ds)
    then show ?thesis
      by (simp add: Cons.IH url_docs_def url_warnings_def call_def st_def)
  qed
qed

lemma load_pdfs_ok:
  "\<forall>p\<in>set ps. p \<in> files w \<longrightarrow> \<not> isl (pdf_load E p) \<Longrightarrow>
   load_pdfs E ps docs w =
     (Inr (docs @ concat (map (pdf_docs E (files w)) ps)),
      w\<lparr>calls := calls w @ map PyPDFLoader_load (filter (\<lambda>p. p \<in> files w) ps),
        ui := ui w @ map (\<lambda>p. St_warning (pdf_not_found p)) (filter (\<lambda>p. p \<notin> files w) ps)\<rparr>)"
proof (induction ps arbitrary: docs w)
  case Nil
  then show ?case by simp
next
  case (Cons p ps)
  show ?case
  proof (cases "p \<in> files w")
    case True
    with Cons.prems obtain ds where ds: "pdf_load E p = Inr ds"
      by (cases "pdf_load E p") auto
    have "\<forall>q\<in>set ps. q \<in> files (call (PyPDFLoader_load p) w) \<longrightarrow> \<not> isl (pdf_load E q)"
      using Cons.prems by simp
    from Cons.IH [OF this] True ds show ?thesis
      by (simp add: pdf_docs_def call_def)
  next
    case False
    have "\<forall>q\<in>set ps. q \<in> files (st (St_warning (pdf_not_found p)) w) \<longrightarrow> \<not> isl (pdf_load E q)"
      using Cons.prems by simp
    from Cons.IH [OF this] False show ?thesis
      by (simp add: pdf_docs_def st_def)
  qed
qed

lemma load_csvs_ok:
  "\<forall>p\<in>set ps. p \<in> files w \<longrightarrow> \<not> isl (csv_load E p) \<Longrightarrow>
   load_csvs E ps docs w =
     (Inr (docs @ concat (map (csv_docs E (files w)) ps)),
      w\<lparr>calls := calls w @ map (\<lambda>p. CSVLoader_load p (ascii ''utf-8'')) (filter (\<lambda>p. p \<in> files w) ps),
        ui := ui w @ map (\<lambda>p. St_warning (csv_not_found p)) (filter (\<lambda>p. p \<notin> files w) ps)\<rparr>)"
proof (induction ps arbitrary: docs w)
  case Nil
  then show ?case by simp
next
  case (Cons p ps)
  show ?case
  proof (cases "p \<in> files w")
    case True
    with Cons.prems obtain ds where ds: "csv_load E p = Inr ds"
      by (cases "csv_load E p") auto
    have "\<forall>q\<in>set ps. q \<in> files (call (CSVLoader_load p (ascii ''utf-8'')) w) \<longrightarrow> \<not> isl (csv_load E q)"
      using Cons.prems by simp
    from Cons.IH [OF this] True ds show ?thesis
      by (simp add: csv_docs_def call_def)
  next
    case False
    have "\<forall>q\<in>set ps. q \<in> files (st (St_warning (csv_not_found p)) w) \<longrightarrow> \<not> isl (csv_load E q)"
      using Cons.prems by simp
    from Cons.IH [OF this] False show ?thesis
      by (simp add: csv_docs_def st_def)
  qed
qed

text \<open>Whatever the outcome, the local loops leave the files alone and call only their own loader.\<close>

lemma load_pdfs_effects:
  "files (snd (load_pdfs E ps docs w)) = files w
   \<and> (\<exists>qs. calls (snd (load_pdfs E ps docs w)) = calls w @ map PyPDFLoader_load qs)"
proof (induction ps arbitrary: docs w)
  case Nil
  then show ?case by simp
next
  case (Cons p ps)
  show ?case
  proof (cases "p \<in> files w")
    case True
    show ?thesis
    proof (cases "pdf_load E p")
      case (Inl e)
      have "calls (call (PyPDFLoader_load p) w) = calls w @ map PyPDFLoader_load [p]"
        by (simp add: call_def)
      with True Inl show ?thesis by (simp del: list.map) blast
    next
      case (Inr ds)
      from Cons.IH [of "docs @ ds" "call (PyPDFLoader_load p) w"]
      obtain qs where "calls (snd (load_pdfs E ps (docs @ ds) (call (PyPDFLoader_load p) w)))
          = calls w @ map PyPDFLoader_load (p # qs)"
        by (auto simp: call_def)
      with True Inr Cons.IH [of "docs @ ds" "call (PyPDFLoader_load p) w"] show ?thesis
        by (simp del: list.map) blast
    qed
  next
    case False
    with Cons.IH [of docs "st (St_warning (pdf_not_found p)) w"] show ?thesis
      by (simp add: st_def)
  qed
qed


lemma load_pdfs_returns:
  "fst (load_pdfs E ps docs w) = Inr ds \<Longrightarrow> \<forall>p\<in>set ps. p \<in> files w \<longrightarrow> \<not> isl (pdf_load E p)"
proof (induction ps arbitrary: docs w)
  case Nil
  then show ?case by simp
next
  case (Cons p ps)
  show ?case
  proof (cases "p \<in> files w")
    case True
    show ?thesis
    proof (cases "pdf_load E p")
      case (Inl e)
      with True Cons.prems show ?thesis by simp
    next
      case (Inr ds')
      with True Cons.prems have "fst (load_pdfs E ps (docs @ ds') (call (PyPDFLoader_load p) w)) = Inr ds"
        by simp
      from Cons.IH [OF this] Inr show ?thesis by simp
    qed
  next
    case False
    with Cons.prems have "fst (load_pdfs E ps docs (st (St_warning (pdf_not_found p)) w)) = Inr ds"
      by simp
    from Cons.IH [OF this] False show ?thesis by simp
  qed
qed

lemma load_csvs_returns:
  "fst (load_csvs E ps docs w) = Inr ds \<Longrightarrow> \<forall>p\<in>set ps. p \<in> files w \<longrightarrow> \<not> isl (csv_load E p)"
proof (induction ps arbitrary: docs w)
  case Nil
  then show ?case by simp
next
  case (Cons p ps)
  show ?case
  proof (cases "p \<in> files w")
    case True
    show ?thesis
    proof (cases "csv_load E p")
      case (Inl e)
      with True Cons.prems show ?thesis by simp
    next
      case (Inr ds')
      with True Cons.prems
      have "fst (load_csvs E ps (docs @ ds') (call (CSVLoader_load p (ascii ''utf-8'')) w)) = Inr ds"
        by simp
      from Cons.IH [OF this] Inr show ?thesis by simp
    qed
  next
    case False
    with Cons.prems have "fst (load_csvs E ps docs (st (St_warning (csv_not_found p)) w)) = Inr ds"
      by simp
    from Cons.IH [OF this] False show ?thesis by simp
  qed
qed

text \<open>The whole function when no existing local file raises.\<close>

lemma load_all_documents_ok:
  assumes "\<forall>p\<in>set PDF_FILES. p \<in> files w \<longrightarrow> \<not> isl (pdf_load E p)"
    and "\<forall>p\<in>set CSV_FILES. p \<in> files w \<longrightarrow> \<not> isl (csv_load E p)"
  shows "load_all_documents E w =
     (Inr (loaded_documents E (files w)),
      w\<lparr>calls := calls w @ load_calls (files w), ui := ui w @ load_warnings E (files w)\<rparr>)"
proof -
  let ?w1 = "w\<lparr>calls := calls w @ map PyPDFLoader_load (filter (\<lambda>p. p \<in> files w) PDF_FILES),
        ui := ui w @ map (\<lambda>p. St_warning (pdf_not_found p)) (filter (\<lambda>p. p \<notin> files w) PDF_FILES)\<rparr>"
  have p: "load_pdfs E PDF_FILES [] w = (Inr (concat (map (pdf_docs E (files w)) PDF_FILES)), ?w1)"
    using load_pdfs_ok [OF assms(1), of "[]"] by simp
  have "\<forall>p\<in>set CSV_FILES. p \<in> files ?w1 \<longrightarrow> \<not> isl (csv_load E p)"
    using assms(2) by simp
  from load_csvs_ok [OF this, of "concat (map (pdf_docs E (files w)) PDF_FILES)"]
  show ?thesis
    by (simp add: load_all_documents_def p load_urls_eq loaded_documents_def load_warnings_def
        load_calls_def)
qed

lemma load_all_documents_returns:
  assumes "fst (load_all_documents E w) = Inr docs"
  shows "(\<forall>p\<in>set PDF_FILES. p \<in> files w \<longrightarrow> \<not> isl (pdf_load E p))
       \<and> (\<forall>p\<in>set CSV_FILES. p \<in> files w \<longrightarrow> \<not> isl (csv_load E p))"
proof -
  obtain r1 w1 where r1: "load_pdfs E PDF_FILES [] w = (r1, w1)" by (cases "load_pdfs E PDF_FILES [] w")
  then obtain d1 where d1: "r1 = Inr d1"
    using assms by (cases r1) (auto simp: load_all_documents_def)
  have a: "\<forall>p\<in>set PDF_FILES. p \<in> files w \<longrightarrow> \<not> isl (pdf_load E p)"
    using load_pdfs_returns [of E PDF_FILES "[]" w d1] r1 d1 by simp
  have f1: "files w1 = files w"
    using load_pdfs_effects [of E PDF_FILES "[]" w] r1 by simp
  obtain r2 w2 where r2: "load_csvs E CSV_FILES d1 w1 = (r2, w2)" by (cases "load_csvs E CSV_FILES d1 w1")
  then obtain d2 where d2: "r2 = Inr d2"
    using assms r1 d1 by (cases r2) (auto simp: load_all_documents_def)
  have "\<forall>p\<in>set CSV_FILES. p \<in> files w1 \<longrightarrow> \<not> isl (csv_load E p)"
    using load_csvs_returns [of E CSV_FILES d1 w1 d2] r2 d2 by simp
  with a f1 show ?thesis by simp
qed

text \<open>
  Claim C7. When \<open>load_all_documents\<close> returns, its result is the documents of the
  configured PDF files, then those of the configured CSV files, then those of the
  configured URLs, each group in the order of its list, a source that was skipped
  contributing nothing; the loaders were called in that same order.
\<close>

theorem load_all_documents_order:
  assumes "load_all_documents E w = (Inr docs, w')"
  shows "docs = concat (map (pdf_docs E (files w)) PDF_FILES)
              @ concat (map (csv_docs E (files w)) CSV_FILES)
              @ concat (map (url_docs E) URLS)
       \<and> calls w' = calls w @ load_calls (files w)"
proof -
  from assms have "fst (load_all_documents E w) = Inr docs" by simp
  from load_all_documents_returns [OF this]
  have "load_all_documents E w =
     (Inr (loaded_documents E (files w)),
      w\<lparr>calls := calls w @ load_calls (files w), ui := ui w @ load_warnings E (files w)\<rparr>)"
    by (intro load_all_documents_ok) simp_all
  with assms show ?thesis by (auto simp: loaded_documents_def)
qed

text \<open>Both files present, the first URL timing out, the second answering.\<close>

theorem load_all_documents_order_witness:
  "load_all_documents mixed_env (fresh (set PDF_FILES \<union> set CSV_FILES))
     = (Inr [doc_a, doc_b, doc_c],
        (fresh (set PDF_FILES \<union> set CSV_FILES))
          \<lparr>calls := [PyPDFLoader_load (hd PDF_FILES), CSVLoader_load (hd CSV_FILES) (ascii ''utf-8''),
                     WebBaseLoader_load (URLS ! 0), WebBaseLoader_load (URLS ! 1)],
            ui := [St_warning (url_failed (URLS ! 0) (Exception (ascii ''timed out'')))]\<rparr>)
   \<and> [doc_a, doc_b, doc_c]
       = concat (map (pdf_docs mixed_env (set PDF_FILES \<union> set CSV_FILES)) PDF_FILES)
         @ concat (map (csv_docs mixed_env (set PDF_FILES \<union> set CSV_FILES)) CSV_FILES)
         @ concat (map (url_docs mixed_env) URLS)"
proof -
  have run: "load_all_documents mixed_env (fresh (set PDF_FILES \<union> set CSV_FILES))
     = (Inr [doc_a, doc_b, doc_c],
        (fresh (set PDF_FILES \<union> set CSV_FILES))
          \<lparr>calls := [PyPDFLoader_load (hd PDF_FILES), CSVLoader_load (hd CSV_FILES) (ascii ''utf-8''),
                     WebBaseLoader_load (URLS ! 0), WebBaseLoader_load (URLS ! 1)],
            ui := [St_warning (url_failed (URLS ! 0) (Exception (ascii ''timed out'')))]\<rparr>)"
    by (simp add: load_all_documents_def PDF_FILES_def CSV_FILES_def URLS_def mixed_env_def demo_env_def
        fresh_def call_def st_def ascii_def)
  from load_all_documents_order [OF run] show ?thesis
    using run by (simp add: fresh_def)
qed

text \<open>
  Claim C6 as stated fails. With the configured PDF absent and the configured CSV
  present but rejected by its parser, a configured path is missing and yet
  \<open>load_all_documents\<close> raises: the CSV loop has no handler.
\<close>

theorem missing_pdf_corrupt_csv_raises:
  "hd PDF_FILES \<in> set PDF_FILES \<and> hd PDF_FILES \<notin> files (fresh (set CSV_FILES))
   \<and> fst (load_all_documents corrupt_csv_env (fresh (set CSV_FILES))) = Inl (Exception (ascii ''bad row''))"
  by (simp add: load_all_documents_def PDF_FILES_def CSV_FILES_def corrupt_csv_env_def demo_env_def
      fresh_def call_def st_def ascii_def)

text \<open>
  Claim C6, amended. Provided every configured PDF or CSV file that exists is parsed
  without a raise, \<open>load_all_documents\<close> returns, whichever paths are missing and
  whichever URL fetches fail. It returns the documents of every source that loaded, and
  the warnings it adds to the display are exactly: one per missing PDF path, one per
  missing CSV path, one per failed URL, in that order.
\<close>

theorem load_all_documents_tolerates_missing:
  assumes "\<forall>p\<in>set PDF_FILES. p \<in> files w \<longrightarrow> \<not> isl (pdf_load E p)"
    and "\<forall>p\<in>set CSV_FILES. p \<in> files w \<longrightarrow> \<not> isl (csv_load E p)"
  shows "fst (load_all_documents E w) = Inr (loaded_documents E (files w))
       \<and> ui (snd (load_all_documents E w))
           = ui w
             @ map (\<lambda>p. St_warning (pdf_not_found p)) (filter (\<lambda>p. p \<notin> files w) PDF_FILES)
             @ map (\<lambda>p. St_warning (csv_not_found p)) (filter (\<lambda>p. p \<notin> files w) CSV_FILES)
             @ concat (map (url_warnings E) URLS)"
  using load_all_documents_ok [OF assms] by (simp add: load_warnings_def)

text \<open>The PDF missing, the CSV present, the first URL timing out.\<close>

theorem load_all_documents_tolerates_missing_witness:
  "hd PDF_FILES \<notin> files (fresh (set CSV_FILES))
   \<and> hd CSV_FILES \<in> files (fresh (set CSV_FILES))
   \<and> csv_load mixed_env (hd CSV_FILES) = Inr [doc_b]
   \<and> fst (load_all_documents mixed_env (fresh (set CSV_FILES))) = Inr [doc_b, doc_c]
   \<and> ui (snd (load_all_documents mixed_env (fresh (set CSV_FILES))))
       = [St_warning (pdf_not_found (hd PDF_FILES)),
          St_warning (url_failed (URLS ! 0) (Exception (ascii ''timed out'')))]"
proof -
  have h1: "\<forall>p\<in>set PDF_FILES. p \<in> files (fresh (set CSV_FILES)) \<longrightarrow> \<not> isl (pdf_load mixed_env p)"
    by (simp add: mixed_env_def demo_env_def)
  have h2: "\<forall>p\<in>set CSV_FILES. p \<in> files (fresh (set CSV_FILES)) \<longrightarrow> \<not> isl (csv_load mixed_env p)"
    by (simp add: mixed_env_def demo_env_def)
  have d: "loaded_documents mixed_env (files (fresh (set CSV_FILES))) = [doc_b, doc_c]"
    by (simp add: loaded_documents_def pdf_docs_def csv_docs_def url_docs_def PDF_FILES_def
        CSV_FILES_def URLS_def mixed_env_def demo_env_def fresh_def ascii_def)
  have u: "ui (fresh (set CSV_FILES))
             @ map (\<lambda>p. St_warning (pdf_not_found p)) (filter (\<lambda>p. p \<notin> files (fresh (set CSV_FILES))) PDF_FILES)
             @ map (\<lambda>p. St_warning (csv_not_found p)) (filter (\<lambda>p. p \<notin> files (fresh (set CSV_FILES))) CSV_FILES)
             @ concat (map (url_warnings mixed_env) URLS)
        = [St_warning (pdf_not_found (hd PDF_FILES)),
          St_warning (url_failed (URLS ! 0) (Exception (ascii ''timed out'')))]"
    by (simp add: url_warnings_def PDF_FILES_def CSV_FILES_def URLS_def mixed_env_def demo_env_def
        fresh_def ascii_def)
  have c: "hd PDF_FILES \<notin> files (fresh (set CSV_FILES)) \<and> hd CSV_FILES \<in> files (fresh (set CSV_FILES))
      \<and> csv_load mixed_env (hd CSV_FILES) = Inr [doc_b]"
    by (simp add: PDF_FILES_def CSV_FILES_def mixed_env_def demo_env_def fresh_def ascii_def)
  from load_all_documents_tolerates_missing [OF h1 h2] c d u show ?thesis by simp
qed



section \<open>Steps of a run\<close>

text \<open>
  Apart from \<open>get_vectorstore\<close>, every part of the script leaves the files and the cached
  store alone, and only the Ask handler reaches the splitter or the embedding service: by
  its one retrieval.
\<close>

lemma db_cache_call [simp]: "db_cache (call ev w) = db_cache w"
  by (simp add: call_def)

lemma db_cache_st [simp]: "db_cache (st c w) = db_cache w"
  by (simp add: st_def)

lemma calls_st [simp]: "calls (st c w) = calls w"
  by (simp add: st_def)

lemma calls_call [simp]: "calls (call ev w) = calls w @ [ev]"
  by (simp add: call_def)







lemma steps_call: "\<not> splits_or_embeds ev \<Longrightarrow> steps [] w (call ev w)"
  by (simp add: steps_def)














section \<open>The reopen path through a session\<close>













section \<open>Building the index\<close>

lemma ui_call [simp]: "ui (call ev w) = ui w"
  by (simp add: call_def)

lemma ui_st [simp]: "ui (st c w) = ui w @ [c]"
  by (simp add: st_def)

lemma docs_cache_st [simp]: "docs_cache (st c w) = docs_cache w"
  by (simp add: st_def)









section \<open>The Ask button and the session history\<close>

text \<open>
  Claim C8. When the Ask button is pressed and the query is empty or holds only
  whitespace, the handler shows the warning \<open>please_enter\<close> and does nothing else:
  \<open>ask_llm\<close> is not called (the call log is as before) and the session history, like
  the rest of the state, is as before.
\<close>

theorem blank_query_rejected:
  assumes "ask_clicked i" and "\<forall>c\<in>set (user_query i). isspace c"
  shows "ask_button E db i w = (None, w\<lparr>ui := ui w @ [St_warning please_enter]\<rparr>)
       \<and> calls (snd (ask_button E db i w)) = calls w
       \<and> history (snd (ask_button E db i w)) = history w"
  using assms by (simp add: ask_button_def strip_empty_iff st_def)

text \<open>A query of a space, a tab and a no-break space.\<close>

theorem blank_query_rejected_witness:
  "ask_clicked \<lparr>ask_clicked = True, user_query = [32, 9, 160]\<rparr>
   \<and> isspace 32 \<and> isspace 9 \<and> isspace 160
   \<and> ask_button demo_env (Chroma embeddings DB_DIR) \<lparr>ask_clicked = True, user_query = [32, 9, 160]\<rparr>
        ((fresh {DB_DIR})\<lparr>history := Some []\<rparr>)
       = (None, (fresh {DB_DIR})\<lparr>history := Some [], ui := [St_warning please_enter]\<rparr>)"
proof -
  have h: "ask_clicked \<lparr>ask_clicked = True, user_query = [32, 9, 160]\<rparr>"
    "\<forall>c\<in>set (user_query \<lparr>ask_clicked = True, user_query = [32, 9, 160]\<rparr>). isspace c"
    by (simp_all add: isspace_def)
  from blank_query_rejected [OF h, of demo_env "Chroma embeddings DB_DIR" "(fresh {DB_DIR})\<lparr>history := Some []\<rparr>"] h
  show ?thesis by (simp add: fresh_def isspace_def)
qed

text \<open>Nothing the script calls writes \<open>st.session_state.history\<close>.\<close>

lemma history_call [simp]: "history (call ev w) = history w"
  by (simp add: call_def)

lemma history_st [simp]: "history (st c w) = history w"
  by (simp add: st_def)

lemma load_pdfs_history: "history (snd (load_pdfs E ps docs w)) = history w"
proof (induction ps arbitrary: docs w)
  case Nil
  then show ?case by simp
next
  case (Cons p ps)
  show ?case
  proof (cases "p \<in> files w")
    case True
    then show ?thesis by (cases "pdf_load E p") (simp_all add: Cons.IH)
  next
    case False
    then show ?thesis by (simp add: Cons.IH)
  qed
qed

lemma load_csvs_history: "history (snd (load_csvs E ps docs w)) = history w"
proof (induction ps arbitrary: docs w)
  case Nil
  then show ?case by simp
next
  case (Cons p ps)
  show ?case
  proof (cases "p \<in> files w")
    case True
    then show ?thesis by (cases "csv_load E p") (simp_all add: Cons.IH)
  next
    case False
    then show ?thesis by (simp add: Cons.IH)
  qed
qed

lemma load_all_documents_history: "history (snd (load_all_documents E w)) = history w"
proof -
  obtain r1 w1 where r1: "load_pdfs E PDF_FILES [] w = (r1, w1)" by (cases "load_pdfs E PDF_FILES [] w")
  have h1: "history w1 = history w" using load_pdfs_history [of E PDF_FILES "[]" w] r1 by simp
  show ?thesis
  proof (cases r1)
    case (Inl e)
    with r1 h1 show ?thesis by (simp add: load_all_documents_def)
  next
    case (Inr d1)
    obtain r2 w2 where r2: "load_csvs E CSV_FILES d1 w1 = (r2, w2)" by (cases "load_csvs E CSV_FILES d1 w1")
    have h2: "history w2 = history w" using load_csvs_history [of E CSV_FILES d1 w1] r2 h1 by simp
    show ?thesis
    proof (cases r2)
      case (Inl e)
      with r1 r2 Inr h2 show ?thesis by (simp add: load_all_documents_def)
    next
      case d2: (Inr d2)
      with r1 r2 Inr h2 show ?thesis by (simp add: load_all_documents_def load_urls_eq)
    qed
  qed
qed

lemma load_and_report_history: "history (snd (load_and_report E w)) = history w"
proof (cases "docs_cache w")
  case (Some docs)
  then show ?thesis by (simp add: load_and_report_def load_all_documents_cached_def)
next
  case None
  obtain r w1 where r: "load_all_documents E w = (r, w1)" by (cases "load_all_documents E w")
  have "history w1 = history w" using load_all_documents_history [of E w] r by simp
  with None r show ?thesis
    by (cases r) (simp_all add: load_and_report_def load_all_documents_cached_def)
qed

lemma check_api_key_history: "history (check_api_key E w) = history w"
  by (simp add: check_api_key_def split: option.splits)

lemma get_vectorstore_cached_history:
  "history (snd (get_vectorstore_cached E all_docs w)) = history w"
proof (cases "db_cache w")
  case (Some db)
  then show ?thesis by (simp add: get_vectorstore_cached_def)
next
  case None
  show ?thesis
  proof (cases "DB_DIR \<in> files w")
    case True
    with None show ?thesis
      by (cases "open_index E DB_DIR")
         (simp_all add: get_vectorstore_cached_def get_vectorstore_def Let_def)
  next
    case False
    with None show ?thesis
      by (cases "embed_and_store E (split_documents E 1000 200 all_docs)")
         (simp_all add: get_vectorstore_cached_def get_vectorstore_def Let_def)
  qed
qed

lemma ask_llm_history: "history (snd (ask_llm E db query w)) = history w"
proof (cases "retrieve E db 5 query")
  case (Inl e)
  then show ?thesis by (simp add: ask_llm_def Let_def)
next
  case (Inr results)
  show ?thesis
  proof (cases "results = []")
    case True
    with Inr show ?thesis by (simp add: ask_llm_def Let_def)
  next
    case False
    with Inr show ?thesis
      by (cases "llm_answer E get_llm (prompt_of (join [10, 10] (map page_content results)) query)")
         (simp_all add: ask_llm_def Let_def)
  qed
qed

lemma ask_button_history: "history (snd (ask_button E db i w)) = history w"
proof (cases "ask_clicked i \<and> strip (user_query i) \<noteq> []")
  case False
  then show ?thesis by (auto simp: ask_button_def)
next
  case True
  obtain r w1 where r: "ask_llm E db (user_query i) w = (r, w1)"
    by (cases "ask_llm E db (user_query i) w")
  have "history w1 = history w" using ask_llm_history [of E db "user_query i" w] r by simp
  with True r show ?thesis by (cases r) (simp_all add: ask_button_def)
qed

lemma render_history_history: "history (render_history h w) = history w"
  by (induction h w rule: render_history.induct) simp_all

text \<open>No run of the script puts a pair into the history: a run leaves it as it was, or
  turns an absent history into the empty list.\<close>

lemma script_history:
  "history (snd (script E i w)) = history w
   \<or> history w = None \<and> history (snd (script E i w)) = Some []"
proof -
  obtain r1 w1 where r1: "load_and_report E (check_api_key E w) = (r1, w1)"
    by (cases "load_and_report E (check_api_key E w)")
  have h1: "history w1 = history w"
    using load_and_report_history [of E "check_api_key E w"] r1 check_api_key_history [of E w] by simp
  show ?thesis
  proof (cases r1)
    case (Inl e)
    with r1 h1 show ?thesis by (simp add: script_def)
  next
    case (Inr all_docs)
    obtain r2 w2 where r2: "get_vectorstore_cached E all_docs w1 = (r2, w2)"
      by (cases "get_vectorstore_cached E all_docs w1")
    have h2: "history w2 = history w"
      using get_vectorstore_cached_history [of E all_docs w1] r2 h1 by simp
    show ?thesis
    proof (cases r2)
      case (Inl e)
      with r1 r2 Inr h2 show ?thesis by (simp add: script_def)
    next
      case db: (Inr db)
      obtain r3 w3 where r3: "ask_button E db i (init_history w2) = (r3, w3)"
        by (cases "ask_button E db i (init_history w2)")
      have h3: "history w3 = history (init_history w2)"
        using ask_button_history [of E db i "init_history w2"] r3 by simp
      have "history (init_history w2) = history w
            \<or> history w = None \<and> history (init_history w2) = Some []"
        using h2 by (cases "history w") (simp_all add: init_history_def)
      with h3 r1 r2 r3 Inr db show ?thesis
        by (cases r3) (simp_all add: script_def render_history_history)
    qed
  qed
qed

lemma history_never_filled:
  "history w = None \<or> history w = Some [] \<Longrightarrow>
   history (run_session E is w) = None \<or> history (run_session E is w) = Some []"
proof (induction "is" arbitrary: w)
  case Nil
  then show ?case by simp
next
  case (Cons i "is")
  from script_history [of E i w] Cons.prems
  have "history (snd (script E i w)) = None \<or> history (snd (script E i w)) = Some []"
    by auto
  from Cons.IH [OF this] show ?case by simp
qed

text \<open>
  Claim C1 asks that each answered query adds its (question, answer) pair to the session
  history. The handler displays the answer and stores nothing. Here a new session, with
  the index directory present, asks one question: the run ends normally, the last thing
  displayed is the answer, and the history is still the empty list.
\<close>

theorem answered_query_not_recorded:
  "fst (script demo_env \<lparr>ask_clicked = True, user_query = ascii ''laptops?''\<rparr> (fresh {DB_DIR})) = None
   \<and> last (ui (snd (script demo_env \<lparr>ask_clicked = True, user_query = ascii ''laptops?''\<rparr> (fresh {DB_DIR}))))
       = St_markdown (answer_div (ascii ''| item | duty |''))
   \<and> history (snd (script demo_env \<lparr>ask_clicked = True, user_query = ascii ''laptops?''\<rparr> (fresh {DB_DIR})))
       = Some []"
  by (simp add: script_def load_and_report_def load_all_documents_cached_def load_all_documents_def
      check_api_key_def get_vectorstore_cached_def get_vectorstore_def ask_button_def ask_llm_def
      init_history_def PDF_FILES_def CSV_FILES_def URLS_def DB_DIR_def demo_env_def fresh_def
      call_def st_def ascii_def strip_def isspace_def Let_def)

end
